theory Spec2Isabelle
  imports Main
begin

section \<open>Strings and the library functions the parser calls\<close>

text \<open>
  A Go string is a sequence of bytes and \<open>len\<close> counts bytes, so a Go string is a
  \<^typ>\<open>string\<close> (a list of 8-bit \<^typ>\<open>char\<close>s) and \<open>len\<close> is \<^const>\<open>length\<close>.
  Where the specification says "character" for a length, the code counts bytes.
\<close>

definition isUpperASCII :: "char \<Rightarrow> bool" where
  "isUpperASCII c = (65 \<le> (of_char c :: nat) \<and> (of_char c :: nat) \<le> 90)"

definition toLowerASCII :: "char \<Rightarrow> char" where
  "toLowerASCII c = (if isUpperASCII c then char_of ((of_char c :: nat) + 32) else c)"

definition isASCII :: "string \<Rightarrow> bool" where
  "isASCII s = list_all (\<lambda>c. (of_char c :: nat) < 128) s"

text \<open>
  \<open>strings.ToLower\<close>. On a string whose bytes are all below \<open>0x80\<close> the library
  lower-cases the bytes \<open>A\<close>..\<open>Z\<close> and keeps every other byte. On any other string it
  returns \<open>strings.Map(unicode.ToLower, s)\<close>, which decodes UTF-8 and consults the
  Unicode tables of the Go library; that path is no code of this repository and is the
  parameter \<open>mapLower\<close>, about which nothing is assumed.
\<close>

definition ToLower :: "(string \<Rightarrow> string) \<Rightarrow> string \<Rightarrow> string" where
  "ToLower mapLower s = (if isASCII s then map toLowerASCII s else mapLower s)"

text \<open>
  \<open>strings.Split(s, sep)\<close> for a separator of one byte (the parser splits on \<open>","\<close> and
  on \<open>"="\<close> only): cut at every occurrence of the separator; a string without the
  separator, the empty string included, gives the one-element list holding it.
\<close>

function Split :: "string \<Rightarrow> char \<Rightarrow> string list" where
  "Split s sep =
     (case dropWhile (\<lambda>c. c \<noteq> sep) s of
        [] \<Rightarrow> [s]
      | _ # rest \<Rightarrow> takeWhile (\<lambda>c. c \<noteq> sep) s # Split rest sep)"
  by pat_completeness auto
termination
proof (relation "measure (\<lambda>(s, sep). length s)")
  show "wf (measure (\<lambda>(s, sep). length s))" by simp
next
  fix s :: string and sep :: char and x rest
  assume "dropWhile (\<lambda>c. c \<noteq> sep) s = x # rest"
  then have "length rest < length (dropWhile (\<lambda>c. c \<noteq> sep) s)" by simp
  also have "\<dots> \<le> length s" by (rule length_dropWhile_le)
  finally show "((rest, sep), (s, sep)) \<in> measure (\<lambda>(s, sep). length s)" by simp
qed

declare Split.simps [simp del]

text \<open>\<open>strconv.ParseBool\<close>: twelve accepted spellings, anything else is a syntax error.\<close>

definition ParseBool :: "string \<Rightarrow> bool option" where
  "ParseBool str =
     (if str \<in> set [''1'', ''t'', ''T'', ''true'', ''TRUE'', ''True''] then Some True
      else if str \<in> set [''0'', ''f'', ''F'', ''false'', ''FALSE'', ''False''] then Some False
      else None)"

section \<open>The data model\<close>

record Argument =
  Required :: bool
  LongName :: string
  ShortName :: string
  HasDefaultValue :: bool
  DefaultValue :: string

text \<open>The zero value of the struct, which the named result \<open>argument\<close> starts from.\<close>

definition zeroArgument :: Argument where
  "zeroArgument =
     \<lparr>Required = False, LongName = [], ShortName = [], HasDefaultValue = False,
      DefaultValue = []\<rparr>"

text \<open>
  Of \<open>reflect.StructField\<close> the code reads the name and the tag. A struct tag is a list
  of key/value pairs; \<open>Tag.Get\<close> returns the value of the first pair with the key and
  the empty string when there is none.
\<close>

type_synonym StructTag = "(string \<times> string) list"

record StructField =
  Name :: string
  Tag :: StructTag

definition Get :: "StructTag \<Rightarrow> string \<Rightarrow> string" where
  "Get tag key = (case map_of tag key of None \<Rightarrow> [] | Some v \<Rightarrow> v)"

text \<open>
  The errors \<open>ParseArgFromField\<close> returns are built by \<open>fmt.Errorf\<close>; each constructor
  carries the values its message is formatted from.
\<close>

datatype error =
    FieldNameTooShort string
  | MalformedTagItem nat string
  | InvalidBooleanValue string string string
  | ShortNameTooLong string string string

section \<open>The tag parser\<close>

text \<open>
  The \<open>processArg*\<close> functions mutate the argument through a pointer; here they take it
  and return it, with the error (or \<open>None\<close> for \<open>nil\<close>) where the source returns one.
\<close>

definition processArgRequired ::
  "Argument \<Rightarrow> string \<Rightarrow> string \<Rightarrow> string \<Rightarrow> Argument \<times> error option" where
  "processArgRequired argument fieldName tagName tagValue =
     (case ParseBool tagValue of
        None \<Rightarrow> (argument, Some (InvalidBooleanValue fieldName tagName tagValue))
      | Some required \<Rightarrow> (argument\<lparr>Required := required\<rparr>, None))"

definition processArgLongName :: "Argument \<Rightarrow> string \<Rightarrow> Argument" where
  "processArgLongName argument tagValue =
     (if length tagValue > 0 then argument\<lparr>LongName := tagValue\<rparr> else argument)"

definition processArgDefaultValue :: "Argument \<Rightarrow> string \<Rightarrow> Argument" where
  "processArgDefaultValue argument tagValue =
     argument\<lparr>DefaultValue := tagValue, HasDefaultValue := True\<rparr>"

definition processArgShortName ::
  "(string \<Rightarrow> string) \<Rightarrow> Argument \<Rightarrow> string \<Rightarrow> string \<Rightarrow> string \<Rightarrow> Argument \<times> error option"
  where
  "processArgShortName mapLower argument fieldName tagName tagValue =
     (if length tagValue > 1
      then (argument, Some (ShortNameTooLong fieldName tagName tagValue))
      else (argument\<lparr>ShortName := ToLower mapLower tagValue\<rparr>, None))"

definition processArg ::
  "(string \<Rightarrow> string) \<Rightarrow> Argument \<Rightarrow> string \<Rightarrow> string \<Rightarrow> string \<Rightarrow> Argument \<times> error option"
  where
  "processArg mapLower argument fieldName tagName tagValue =
     (if tagName = ''required'' then processArgRequired argument fieldName tagName tagValue
      else if tagName = ''longname'' then (processArgLongName argument tagValue, None)
      else if tagName = ''defaultvalue'' then (processArgDefaultValue argument tagValue, None)
      else if tagName = ''shortname''
        then processArgShortName mapLower argument fieldName tagName tagValue
      else (argument, None))"

text \<open>
  The \<open>for index, argItem := range argItems\<close> loop of \<open>ParseArgFromField\<close>: the items still
  to visit, the index of the first of them, and the argument built so far.
\<close>

fun ParseArgFromField_loop ::
  "(string \<Rightarrow> string) \<Rightarrow> string \<Rightarrow> nat \<Rightarrow> string list \<Rightarrow> Argument \<Rightarrow> Argument \<times> error option"
  where
  "ParseArgFromField_loop mapLower fieldName index [] argument = (argument, None)"
| "ParseArgFromField_loop mapLower fieldName index (argItem # argItems) argument =
     (let nameValue = Split argItem CHR ''=''
      in if length nameValue \<noteq> 2
         then (argument, Some (MalformedTagItem index fieldName))
         else
           let tagName = ToLower mapLower (nameValue ! 0);
               tagValue = nameValue ! 1
           in case processArg mapLower argument fieldName tagName tagValue of
                (argument', Some err) \<Rightarrow> (argument', Some err)
              | (argument', None) \<Rightarrow>
                  ParseArgFromField_loop mapLower fieldName (index + 1) argItems argument')"

text \<open>
  \<open>ParseArgFromField\<close> returns the argument and the error together; on an error the
  argument is the one built up to that point.
\<close>

definition ParseArgFromField ::
  "(string \<Rightarrow> string) \<Rightarrow> StructField \<Rightarrow> Argument \<times> error option" where
  "ParseArgFromField mapLower field =
     (if length (Name field) < 2
      then (zeroArgument, Some (FieldNameTooShort (Name field)))
      else
        let defaultName = ToLower mapLower (take 1 (Name field)) @ drop 1 (Name field);
            argument = zeroArgument\<lparr>LongName := defaultName\<rparr>;
            rawArgStr = Get (Tag field) ''arg'';
            argItems = Split rawArgStr CHR '',''
        in ParseArgFromField_loop mapLower (Name field) 0 argItems argument)"

section \<open>The flag binder\<close>

text \<open>
  \<open>strconv.Atoi\<close>, with the platform's \<open>int\<close> taken as 64 bits wide: an optional sign,
  then \<open>strconv.ParseUint\<close> in base 10 over what is left, which must not be empty.
  \<open>ParseUint\<close> reads the bytes from the left: a byte that is no decimal digit is a
  syntax error, and a value that leaves the unsigned range is a range error, whichever
  comes first. The magnitude must then fit the signed range.
\<close>

datatype convError = ErrSyntax | ErrRange

definition intSize :: nat where
  "intSize = 64"

definition isDigit :: "char \<Rightarrow> bool" where
  "isDigit c = (48 \<le> (of_char c :: nat) \<and> (of_char c :: nat) \<le> 57)"

fun ParseUint_loop :: "int \<Rightarrow> string \<Rightarrow> convError + int" where
  "ParseUint_loop n [] = Inr n"
| "ParseUint_loop n (c # cs) =
     (if \<not> isDigit c then Inl ErrSyntax
      else
        let n1 = n * 10 + (int (of_char c) - 48)
        in if 2 ^ intSize - 1 < n1 then Inl ErrRange else ParseUint_loop n1 cs)"

definition Atoi :: "string \<Rightarrow> convError + int" where
  "Atoi s =
     (let neg = (s \<noteq> [] \<and> hd s = CHR ''-'');
          ds = (if s \<noteq> [] \<and> (hd s = CHR ''-'' \<or> hd s = CHR ''+'') then tl s else s)
      in if ds = [] then Inl ErrSyntax
         else
           (case ParseUint_loop 0 ds of
              Inl e \<Rightarrow> Inl e
            | Inr un \<Rightarrow>
                if \<not> neg \<and> 2 ^ (intSize - 1) \<le> un then Inl ErrRange
                else if neg \<and> 2 ^ (intSize - 1) < un then Inl ErrRange
                else Inr (if neg then - un else un)))"

text \<open>
  The values an \<open>interface{}\<close> holds in this code: \<open>nil\<close>, a \<open>bool\<close> or an \<open>int\<close>.
\<close>

datatype iface = NilValue | BoolValue bool | IntValue int

type_synonym genericStringToValueConverter = "string \<Rightarrow> convError + iface"

definition booleanStringToValueConverter :: genericStringToValueConverter where
  "booleanStringToValueConverter val =
     (case ParseBool val of None \<Rightarrow> Inl ErrSyntax | Some b \<Rightarrow> Inr (BoolValue b))"

definition intStringToValueConverter :: genericStringToValueConverter where
  "intStringToValueConverter val =
     (case Atoi val of Inl e \<Rightarrow> Inl e | Inr n \<Rightarrow> Inr (IntValue n))"

text \<open>
  Of \<open>reflect.Type\<close> the code uses the type's name and the lookup of a field by name,
  which package \<open>reflect\<close> provides.
\<close>

record reflectType =
  TypeName :: string
  FieldByName :: "string \<Rightarrow> StructField option"

text \<open>
  Every \<open>panic\<close> of the binder, with the values its message is formatted from.
  \<open>NilTypeAssertion\<close> and \<open>WrongTypeAssertion\<close> are the run-time panics of a failed type
  assertion \<open>defaultValue.(T)\<close>; \<open>FrameworkPanic\<close> is a panic raised inside the command
  framework.
\<close>

datatype panic =
    FieldNotFound string
  | TagParseFailed StructField
  | DefaultNotConvertible string string string
  | NilTypeAssertion
  | WrongTypeAssertion
  | MarkRequiredFailed string
  | FrameworkPanic string

text \<open>
  The command framework (cobra and its flag set) is an external collaborator: its four
  operations are parameters. \<open>'c\<close> is the state of the command, with everything the
  framework writes; \<open>'p\<close> is the pointer to the variable a flag is bound to. A
  registration returns the new state or panics with a message; \<open>MarkFlagRequired\<close>
  returns the new state or an error message.
\<close>

record ('c, 'p) framework =
  StringVarP :: "'c \<Rightarrow> 'p \<Rightarrow> string \<Rightarrow> string \<Rightarrow> string \<Rightarrow> string \<Rightarrow> string + 'c"
  BoolVarP :: "'c \<Rightarrow> 'p \<Rightarrow> string \<Rightarrow> string \<Rightarrow> bool \<Rightarrow> string \<Rightarrow> string + 'c"
  IntVarP :: "'c \<Rightarrow> 'p \<Rightarrow> string \<Rightarrow> string \<Rightarrow> int \<Rightarrow> string \<Rightarrow> string + 'c"
  MarkFlagRequired :: "'c \<Rightarrow> string \<Rightarrow> string + 'c"

definition rationalizeHelp :: "Argument \<Rightarrow> string \<Rightarrow> string" where
  "rationalizeHelp arg rawHelp =
     (if Required arg then ''MANDATORY: '' else ''optional: '') @ rawHelp"

definition parseArg ::
  "(string \<Rightarrow> string) \<Rightarrow> reflectType \<Rightarrow> string \<Rightarrow> panic + (Argument \<times> string)" where
  "parseArg mapLower parmType variableName =
     (case FieldByName parmType variableName of
        None \<Rightarrow> Inl (FieldNotFound variableName)
      | Some field \<Rightarrow>
          (case ParseArgFromField mapLower field of
             (arg, Some err) \<Rightarrow> Inl (TagParseFailed field)
           | (arg, None) \<Rightarrow> Inr (arg, Get (Tag field) ''help'')))"

definition processRequiredArg :: "('c, 'p) framework \<Rightarrow> 'c \<Rightarrow> Argument \<Rightarrow> panic + 'c" where
  "processRequiredArg fw cmd arg =
     (if Required arg
      then (case MarkFlagRequired fw cmd (LongName arg) of
              Inl err \<Rightarrow> Inl (MarkRequiredFailed err)
            | Inr cmd' \<Rightarrow> Inr cmd')
      else Inr cmd)"

definition AttachStringArg ::
  "(string \<Rightarrow> string) \<Rightarrow> ('c, 'p) framework \<Rightarrow> 'c \<Rightarrow> reflectType \<Rightarrow> string \<Rightarrow> 'p \<Rightarrow>
   string list \<Rightarrow> panic + 'c" where
  "AttachStringArg mapLower fw cmd parmType variableName variableValue otherArgs =
     (case parseArg mapLower parmType variableName of
        Inl p \<Rightarrow> Inl p
      | Inr (arg, rawHelp) \<Rightarrow>
          let defaultValue0 = (if HasDefaultValue arg then DefaultValue arg else []);
              defaultValue = (if length otherArgs > 0 then otherArgs ! 0 else defaultValue0)
          in case StringVarP fw cmd variableValue (LongName arg) (ShortName arg) defaultValue
                    (rationalizeHelp arg rawHelp) of
               Inl msg \<Rightarrow> Inl (FrameworkPanic msg)
             | Inr cmd' \<Rightarrow> processRequiredArg fw cmd' arg)"

definition attachCommonArg ::
  "Argument \<Rightarrow> reflectType \<Rightarrow> string \<Rightarrow> genericStringToValueConverter \<Rightarrow> panic + iface" where
  "attachCommonArg arg parmType variableName converter =
     (if HasDefaultValue arg
      then (case converter (DefaultValue arg) of
              Inl err \<Rightarrow>
                Inl (DefaultNotConvertible (TypeName parmType) variableName (DefaultValue arg))
            | Inr defaultValue \<Rightarrow> Inr defaultValue)
      else Inr NilValue)"

text \<open>The type assertions \<open>defaultValue.(bool)\<close> and \<open>defaultValue.(int)\<close>.\<close>

definition assertBool :: "iface \<Rightarrow> panic + bool" where
  "assertBool v =
     (case v of BoolValue b \<Rightarrow> Inr b | NilValue \<Rightarrow> Inl NilTypeAssertion
      | IntValue n \<Rightarrow> Inl WrongTypeAssertion)"

definition assertInt :: "iface \<Rightarrow> panic + int" where
  "assertInt v =
     (case v of IntValue n \<Rightarrow> Inr n | NilValue \<Rightarrow> Inl NilTypeAssertion
      | BoolValue b \<Rightarrow> Inl WrongTypeAssertion)"

definition AttachBoolArg ::
  "(string \<Rightarrow> string) \<Rightarrow> ('c, 'p) framework \<Rightarrow> 'c \<Rightarrow> reflectType \<Rightarrow> string \<Rightarrow> 'p \<Rightarrow> panic + 'c"
  where
  "AttachBoolArg mapLower fw cmd parmType variableName variableValue =
     (case parseArg mapLower parmType variableName of
        Inl p \<Rightarrow> Inl p
      | Inr (arg, rawHelp) \<Rightarrow>
          (case attachCommonArg arg parmType variableName booleanStringToValueConverter of
             Inl p \<Rightarrow> Inl p
           | Inr defaultValue \<Rightarrow>
               (case assertBool defaultValue of
                  Inl p \<Rightarrow> Inl p
                | Inr defaultValueBool \<Rightarrow>
                    (case BoolVarP fw cmd variableValue (LongName arg) (ShortName arg)
                            defaultValueBool (rationalizeHelp arg rawHelp) of
                       Inl msg \<Rightarrow> Inl (FrameworkPanic msg)
                     | Inr cmd' \<Rightarrow> processRequiredArg fw cmd' arg))))"

definition AttachIntArg ::
  "(string \<Rightarrow> string) \<Rightarrow> ('c, 'p) framework \<Rightarrow> 'c \<Rightarrow> reflectType \<Rightarrow> string \<Rightarrow> 'p \<Rightarrow> panic + 'c"
  where
  "AttachIntArg mapLower fw cmd parmType variableName variableValue =
     (case parseArg mapLower parmType variableName of
        Inl p \<Rightarrow> Inl p
      | Inr (arg, rawHelp) \<Rightarrow>
          (case attachCommonArg arg parmType variableName intStringToValueConverter of
             Inl p \<Rightarrow> Inl p
           | Inr defaultValue \<Rightarrow>
               (case assertInt defaultValue of
                  Inl p \<Rightarrow> Inl p
                | Inr defaultValueInt \<Rightarrow>
                    (case IntVarP fw cmd variableValue (LongName arg) (ShortName arg)
                            defaultValueInt (rationalizeHelp arg rawHelp) of
                       Inl msg \<Rightarrow> Inl (FrameworkPanic msg)
                     | Inr cmd' \<Rightarrow> processRequiredArg fw cmd' arg))))"

text \<open>
  A small framework to run the binder on concrete inputs: the command is the list of
  the flags registered so far; marking a flag as required fails when no flag has the
  name.
\<close>

datatype flagDefault = StringDefault string | BoolDefault bool | IntDefault int

record flag =
  flagName :: string
  flagShorthand :: string
  flagDefValue :: flagDefault
  flagUsage :: string
  flagRequired :: bool

definition addFlag :: "flag list \<Rightarrow> string \<Rightarrow> string \<Rightarrow> flagDefault \<Rightarrow> string \<Rightarrow> string + flag list"
  where
  "addFlag cmd name short value usage =
     Inr (cmd @ [\<lparr>flagName = name, flagShorthand = short, flagDefValue = value,
                  flagUsage = usage, flagRequired = False\<rparr>])"

definition listFramework :: "(flag list, unit) framework" where
  "listFramework =
     \<lparr>StringVarP = (\<lambda>cmd p name short value usage. addFlag cmd name short (StringDefault value) usage),
      BoolVarP = (\<lambda>cmd p name short value usage. addFlag cmd name short (BoolDefault value) usage),
      IntVarP = (\<lambda>cmd p name short value usage. addFlag cmd name short (IntDefault value) usage),
      MarkFlagRequired = (\<lambda>cmd name.
        if name \<in> set (map flagName cmd)
        then Inr (map (\<lambda>fl. if flagName fl = name then fl\<lparr>flagRequired := True\<rparr> else fl) cmd)
        else Inl name)\<rparr>"

text \<open>A struct type with four tagged fields, to run the binder on.\<close>

definition exampleType :: reflectType where
  "exampleType =
     \<lparr>TypeName = ''Config'',
      FieldByName = map_of
        [(''Verbose'', \<lparr>Name = ''Verbose'', Tag = [(''arg'', ''defaultvalue=true''), (''help'', ''more output'')]\<rparr>),
         (''Port'', \<lparr>Name = ''Port'', Tag = [(''arg'', ''defaultvalue=8080''), (''help'', ''the port'')]\<rparr>),
         (''Quiet'', \<lparr>Name = ''Quiet'', Tag = [(''arg'', ''required=false''), (''help'', ''less output'')]\<rparr>),
         (''Host'', \<lparr>Name = ''Host'', Tag = [(''arg'', ''defaultvalue=abc''), (''help'', ''the host'')]\<rparr>)]\<rparr>"



text \<open>
  \<open>strings.Map(unicode.ToLower, s)\<close> for a string \<open>s\<close> of exactly one byte that is
  \<open>0x80\<close> or above: such a byte is no valid UTF-8 on its own, and \<open>strings.Map\<close> writes
  the replacement character U+FFFD (the bytes \<open>EF BF BD\<close>) in its place. On any other
  string \<open>mapLowerLoneByte\<close> is the identity and no model of the library; it is applied
  to one-byte strings only.
\<close>

definition mapLowerLoneByte :: "string \<Rightarrow> string" where
  "mapLowerLoneByte s = (if length s = 1 then [CHR 0xEF, CHR 0xBF, CHR 0xBD] else s)"

section \<open>Reading off the items of a tag\<close>

text \<open>
  \<open>lastOr d vs\<close> is the last element of \<open>vs\<close>, and \<open>d\<close> when there is none.
  \<open>tagValues mapLower key argItems\<close> lists, in the order written, the values of the items
  that split into a name and a value at \<open>=\<close> and whose lower-cased name is \<open>key\<close>.
  \<open>itemAccepted\<close> holds of an item that the loop passes without an error.
\<close>

fun lastOr :: "'a \<Rightarrow> 'a list \<Rightarrow> 'a" where
  "lastOr d [] = d"
| "lastOr d (v # vs) = lastOr v vs"

definition tagValues :: "(string \<Rightarrow> string) \<Rightarrow> string \<Rightarrow> string list \<Rightarrow> string list" where
  "tagValues mapLower key argItems =
     map (\<lambda>argItem. Split argItem CHR ''='' ! 1)
       (filter (\<lambda>argItem. length (Split argItem CHR ''='') = 2 \<and>
                  ToLower mapLower (Split argItem CHR ''='' ! 0) = key) argItems)"

definition itemAccepted :: "(string \<Rightarrow> string) \<Rightarrow> string \<Rightarrow> bool" where
  "itemAccepted mapLower argItem =
     (let nameValue = Split argItem CHR ''=''
      in length nameValue = 2 \<and>
         (ToLower mapLower (nameValue ! 0) = ''required'' \<longrightarrow> ParseBool (nameValue ! 1) \<noteq> None) \<and>
         (ToLower mapLower (nameValue ! 0) = ''shortname'' \<longrightarrow> length (nameValue ! 1) \<le> 1))"

lemma lastOr_eq: "lastOr d vs = (if vs = [] then d else last vs)"
  by (induction vs arbitrary: d) auto

lemma lastOr_in: "lastOr d vs = d \<or> lastOr d vs \<in> set vs"
  by (induction vs arbitrary: d) auto

lemma Split_no_sep:
  assumes "sep \<notin> set s"
  shows "Split s sep = [s]"
proof -
  have d: "dropWhile (\<lambda>c. c \<noteq> sep) s = []" using assms by auto
  show ?thesis by (subst Split.simps) (simp only: d list.case)
qed

lemma Split_Nil: "Split [] sep = [[]]"
  by (rule Split_no_sep) simp

lemma Split_Cons:
  "Split (c # cs) sep =
     (if c = sep then [] # Split cs sep
      else (c # hd (Split cs sep)) # tl (Split cs sep))"
proof (cases "c = sep")
  case True
  then show ?thesis by (subst Split.simps) simp
next
  case False
  show ?thesis
  proof (cases "dropWhile (\<lambda>c. c \<noteq> sep) cs")
    case Nil
    have 1: "Split cs sep = [cs]"
      by (subst Split.simps) (simp only: Nil list.case)
    have "dropWhile (\<lambda>c. c \<noteq> sep) (c # cs) = []"
      using False Nil by simp
    then have 2: "Split (c # cs) sep = [c # cs]"
      by (subst Split.simps) (simp only: list.case)
    from False 1 2 show ?thesis by simp
  next
    case (Cons x rest)
    have 1: "Split cs sep = takeWhile (\<lambda>c. c \<noteq> sep) cs # Split rest sep"
      by (subst Split.simps) (simp only: Cons list.case)
    have "dropWhile (\<lambda>c. c \<noteq> sep) (c # cs) = x # rest"
      using False Cons by simp
    then have 2: "Split (c # cs) sep = takeWhile (\<lambda>c. c \<noteq> sep) (c # cs) # Split rest sep"
      by (subst Split.simps) (simp only: list.case)
    from False 1 2 show ?thesis by simp
  qed
qed

lemma Split_not_Nil: "Split s sep \<noteq> []"
  by (cases s) (auto simp: Split_Nil Split_Cons)

lemma length_Split: "length (Split s sep) = Suc (count_list s sep)"
proof (induction s)
  case Nil
  show ?case by (simp add: Split_Nil)
next
  case (Cons c cs)
  have "Split cs sep \<noteq> []" by (rule Split_not_Nil)
  then have "length (tl (Split cs sep)) = count_list cs sep"
    using Cons.IH by (cases "Split cs sep") auto
  with Cons.IH show ?case by (simp add: Split_Cons)
qed

lemma loop_append:
  "ParseArgFromField_loop U f n (xs @ ys) a =
     (case ParseArgFromField_loop U f n xs a of
        (a', None) \<Rightarrow> ParseArgFromField_loop U f (n + length xs) ys a'
      | (a', Some e) \<Rightarrow> (a', Some e))"
  by (induction xs arbitrary: a n) (auto simp: Let_def split: prod.splits option.splits)

section \<open>The loop over the items\<close>

lemma tagValues_Nil: "tagValues U key [] = []"
  by (simp add: tagValues_def)

lemma tagValues_Cons:
  "tagValues U key (x # xs) =
     (if length (Split x CHR ''='') = 2 \<and> ToLower U (Split x CHR ''='' ! 0) = key
      then Split x CHR ''='' ! 1 # tagValues U key xs else tagValues U key xs)"
  by (simp add: tagValues_def)

lemma loop_step:
  assumes "ParseArgFromField_loop U f n (x # xs) a = (a', None)"
  shows "length (Split x CHR ''='') = 2 \<and>
         (\<exists>a1. processArg U a f (ToLower U (Split x CHR ''='' ! 0)) (Split x CHR ''='' ! 1) = (a1, None) \<and>
               ParseArgFromField_loop U f (Suc n) xs a1 = (a', None))"
  using assms by (auto simp: Let_def split: if_splits prod.splits option.splits)

lemma processArg_fields:
  assumes "processArg U a f k v = (a', None)"
  shows "Required a' = (if k = ''required'' then ParseBool v = Some True else Required a)"
    and "LongName a' = (if k = ''longname'' \<and> v \<noteq> [] then v else LongName a)"
    and "ShortName a' = (if k = ''shortname'' then ToLower U v else ShortName a)"
    and "HasDefaultValue a' = (k = ''defaultvalue'' \<or> HasDefaultValue a)"
    and "DefaultValue a' = (if k = ''defaultvalue'' then v else DefaultValue a)"
    and "k = ''required'' \<longrightarrow> ParseBool v \<noteq> None"
    and "k = ''shortname'' \<longrightarrow> length v \<le> 1"
  using assms
  by (auto simp: processArg_def processArgRequired_def processArgLongName_def
      processArgDefaultValue_def processArgShortName_def split: option.splits if_splits)


lemma loop_Required:
  "ParseArgFromField_loop U f n items a = (a', None) \<Longrightarrow> Required a' = lastOr (Required a) (map (\<lambda>v. ParseBool v = Some True) (tagValues U ''required'' items))"
proof (induction items arbitrary: a n)
  case Nil
  then show ?case by (simp add: tagValues_Nil)
next
  case (Cons x xs)
  from loop_step [OF Cons.prems] obtain a1 where
    len: "length (Split x CHR ''='') = 2" and
    pa: "processArg U a f (ToLower U (Split x CHR ''='' ! 0)) (Split x CHR ''='' ! 1) = (a1, None)" and
    rest: "ParseArgFromField_loop U f (Suc n) xs a1 = (a', None)"
    by blast
  from Cons.IH [OF rest] processArg_fields(1) [OF pa] len show ?case
    by (simp add: tagValues_Cons)
qed

lemma loop_LongName:
  "ParseArgFromField_loop U f n items a = (a', None) \<Longrightarrow> LongName a' = lastOr (LongName a) (filter (\<lambda>v. v \<noteq> []) (tagValues U ''longname'' items))"
proof (induction items arbitrary: a n)
  case Nil
  then show ?case by (simp add: tagValues_Nil)
next
  case (Cons x xs)
  from loop_step [OF Cons.prems] obtain a1 where
    len: "length (Split x CHR ''='') = 2" and
    pa: "processArg U a f (ToLower U (Split x CHR ''='' ! 0)) (Split x CHR ''='' ! 1) = (a1, None)" and
    rest: "ParseArgFromField_loop U f (Suc n) xs a1 = (a', None)"
    by blast
  from Cons.IH [OF rest] processArg_fields(2) [OF pa] len show ?case
    by (simp add: tagValues_Cons)
qed

lemma loop_ShortName:
  "ParseArgFromField_loop U f n items a = (a', None) \<Longrightarrow> ShortName a' = lastOr (ShortName a) (map (ToLower U) (tagValues U ''shortname'' items))"
proof (induction items arbitrary: a n)
  case Nil
  then show ?case by (simp add: tagValues_Nil)
next
  case (Cons x xs)
  from loop_step [OF Cons.prems] obtain a1 where
    len: "length (Split x CHR ''='') = 2" and
    pa: "processArg U a f (ToLower U (Split x CHR ''='' ! 0)) (Split x CHR ''='' ! 1) = (a1, None)" and
    rest: "ParseArgFromField_loop U f (Suc n) xs a1 = (a', None)"
    by blast
  from Cons.IH [OF rest] processArg_fields(3) [OF pa] len show ?case
    by (simp add: tagValues_Cons)
qed

lemma loop_HasDefaultValue:
  "ParseArgFromField_loop U f n items a = (a', None) \<Longrightarrow> HasDefaultValue a' = (HasDefaultValue a \<or> tagValues U ''defaultvalue'' items \<noteq> [])"
proof (induction items arbitrary: a n)
  case Nil
  then show ?case by (simp add: tagValues_Nil)
next
  case (Cons x xs)
  from loop_step [OF Cons.prems] obtain a1 where
    len: "length (Split x CHR ''='') = 2" and
    pa: "processArg U a f (ToLower U (Split x CHR ''='' ! 0)) (Split x CHR ''='' ! 1) = (a1, None)" and
    rest: "ParseArgFromField_loop U f (Suc n) xs a1 = (a', None)"
    by blast
  from Cons.IH [OF rest] processArg_fields(4) [OF pa] len show ?case
    by (simp add: tagValues_Cons)
qed

lemma loop_DefaultValue:
  "ParseArgFromField_loop U f n items a = (a', None) \<Longrightarrow> DefaultValue a' = lastOr (DefaultValue a) (tagValues U ''defaultvalue'' items)"
proof (induction items arbitrary: a n)
  case Nil
  then show ?case by (simp add: tagValues_Nil)
next
  case (Cons x xs)
  from loop_step [OF Cons.prems] obtain a1 where
    len: "length (Split x CHR ''='') = 2" and
    pa: "processArg U a f (ToLower U (Split x CHR ''='' ! 0)) (Split x CHR ''='' ! 1) = (a1, None)" and
    rest: "ParseArgFromField_loop U f (Suc n) xs a1 = (a', None)"
    by blast
  from Cons.IH [OF rest] processArg_fields(5) [OF pa] len show ?case
    by (simp add: tagValues_Cons)
qed

lemma loop_items_accepted:
  "ParseArgFromField_loop U f n items a = (a', None) \<Longrightarrow> list_all (itemAccepted U) items"
proof (induction items arbitrary: a n)
  case Nil
  then show ?case by simp
next
  case (Cons x xs)
  from loop_step [OF Cons.prems] obtain a1 where
    len: "length (Split x CHR ''='') = 2" and
    pa: "processArg U a f (ToLower U (Split x CHR ''='' ! 0)) (Split x CHR ''='' ! 1) = (a1, None)" and
    rest: "ParseArgFromField_loop U f (Suc n) xs a1 = (a', None)"
    by blast
  from processArg_fields(6,7) [OF pa] len have "itemAccepted U x"
    by (simp add: itemAccepted_def Let_def)
  with Cons.IH [OF rest] show ?case by simp
qed

lemma processArg_accepted:
  assumes "k = ''required'' \<longrightarrow> ParseBool v \<noteq> None"
    and "k = ''shortname'' \<longrightarrow> length v \<le> 1"
  shows "snd (processArg U a f k v) = None"
proof (cases "k = ''required''")
  case True
  with assms(1) obtain b where "ParseBool v = Some b" by auto
  with True show ?thesis by (simp add: processArg_def processArgRequired_def)
next
  case nr: False
  show ?thesis
  proof (cases "k = ''shortname''")
    case True
    with assms(2) have "\<not> 1 < length v" by simp
    with True show ?thesis by (simp add: processArg_def processArgShortName_def)
  next
    case False
    with nr show ?thesis by (simp add: processArg_def)
  qed
qed

lemma loop_accepted:
  "list_all (itemAccepted U) items \<Longrightarrow> snd (ParseArgFromField_loop U f n items a) = None"
proof (induction items arbitrary: a n)
  case Nil
  show ?case by simp
next
  case (Cons x xs)
  let ?k = "ToLower U (Split x CHR ''='' ! 0)"
  let ?v = "Split x CHR ''='' ! 1"
  from Cons.prems have acc: "itemAccepted U x" and rest: "list_all (itemAccepted U) xs"
    by simp_all
  from acc have len: "length (Split x CHR ''='') = 2"
    and r: "?k = ''required'' \<longrightarrow> ParseBool ?v \<noteq> None"
    and s: "?k = ''shortname'' \<longrightarrow> length ?v \<le> 1"
    by (simp_all add: itemAccepted_def Let_def)
  have "snd (processArg U a f ?k ?v) = None"
    by (rule processArg_accepted [OF r s])
  then obtain a1 where pa: "processArg U a f ?k ?v = (a1, None)"
    by (cases "processArg U a f ?k ?v") simp
  have "ParseArgFromField_loop U f n (x # xs) a = ParseArgFromField_loop U f (Suc n) xs a1"
    using len pa by (simp add: Let_def)
  with Cons.IH [OF rest] show ?case by simp
qed


lemma itemAccepted_iff_loop:
  "itemAccepted U argItem \<longleftrightarrow> snd (ParseArgFromField_loop U f n [argItem] a) = None"
proof
  assume "itemAccepted U argItem"
  then have "list_all (itemAccepted U) [argItem]" by simp
  then show "snd (ParseArgFromField_loop U f n [argItem] a) = None" by (rule loop_accepted)
next
  assume "snd (ParseArgFromField_loop U f n [argItem] a) = None"
  then obtain a' where "ParseArgFromField_loop U f n [argItem] a = (a', None)"
    by (cases "ParseArgFromField_loop U f n [argItem] a") simp
  from loop_items_accepted [OF this] show "itemAccepted U argItem" by simp
qed



lemma loop_at:
  assumes "i \<le> length items" and "\<forall>j<i. itemAccepted U (items ! j)"
  shows "snd (ParseArgFromField_loop U f n (take i items) a) = None"
    and "ParseArgFromField_loop U f n items a =
         ParseArgFromField_loop U f (n + i) (drop i items)
           (fst (ParseArgFromField_loop U f n (take i items) a))"
proof -
  have "list_all (itemAccepted U) (take i items)"
    using assms by (simp add: list_all_length)
  then show 1: "snd (ParseArgFromField_loop U f n (take i items) a) = None"
    by (rule loop_accepted)
  then obtain a1 where 2: "ParseArgFromField_loop U f n (take i items) a = (a1, None)"
    by (cases "ParseArgFromField_loop U f n (take i items) a") simp
  have "ParseArgFromField_loop U f n (take i items @ drop i items) a =
        ParseArgFromField_loop U f (n + i) (drop i items) a1"
    using assms(1) by (simp only: loop_append 2 prod.case option.case length_take min_absorb2)
  with 2 show "ParseArgFromField_loop U f n items a =
         ParseArgFromField_loop U f (n + i) (drop i items)
           (fst (ParseArgFromField_loop U f n (take i items) a))"
    by simp
qed

lemma loop_malformed_at:
  assumes "i < length items" and "\<forall>j<i. itemAccepted U (items ! j)"
    and "length (Split (items ! i) CHR ''='') \<noteq> 2"
  shows "ParseArgFromField_loop U f n items a =
         (fst (ParseArgFromField_loop U f n (take i items) a), Some (MalformedTagItem (n + i) f))"
proof -
  from assms(1) have d: "drop i items = items ! i # drop (Suc i) items"
    by (simp add: Cons_nth_drop_Suc)
  from assms(1) have "i \<le> length items" by simp
  from loop_at(2) [OF this assms(2)] d assms(3) show ?thesis by simp
qed


lemma Split_pair_iff:
  "Split s sep = [k, v] \<longleftrightarrow> length (Split s sep) = 2 \<and> Split s sep ! 0 = k \<and> Split s sep ! 1 = v"
proof
  assume "Split s sep = [k, v]"
  then show "length (Split s sep) = 2 \<and> Split s sep ! 0 = k \<and> Split s sep ! 1 = v" by simp
next
  assume a: "length (Split s sep) = 2 \<and> Split s sep ! 0 = k \<and> Split s sep ! 1 = v"
  then obtain x y where "Split s sep = [x, y]"
    by (cases "Split s sep"; cases "tl (Split s sep)") auto
  with a show "Split s sep = [k, v]" by simp
qed

lemma tagValues_set:
  "set (tagValues U key items) =
     {v. \<exists>item\<in>set items. \<exists>k. Split item CHR ''='' = [k, v] \<and> ToLower U k = key}"
  by (auto simp: tagValues_def Split_pair_iff)

lemma tagValues_empty_iff:
  "tagValues U key items = [] \<longleftrightarrow>
     \<not> (\<exists>item\<in>set items. \<exists>k v. Split item CHR ''='' = [k, v] \<and> ToLower U k = key)"
proof -
  have "tagValues U key items = [] \<longleftrightarrow> set (tagValues U key items) = {}" by simp
  also have "\<dots> \<longleftrightarrow> \<not> (\<exists>item\<in>set items. \<exists>k v. Split item CHR ''='' = [k, v] \<and> ToLower U k = key)"
    unfolding tagValues_set by blast
  finally show ?thesis .
qed

lemma ParseArgFromField_short:
  "length (Name field) < 2 \<Longrightarrow>
     ParseArgFromField U field = (zeroArgument, Some (FieldNameTooShort (Name field)))"
  by (simp add: ParseArgFromField_def)

lemma ParseArgFromField_long:
  "2 \<le> length (Name field) \<Longrightarrow>
     ParseArgFromField U field =
       ParseArgFromField_loop U (Name field) 0 (Split (Get (Tag field) ''arg'') CHR '','')
         (zeroArgument\<lparr>LongName := ToLower U (take 1 (Name field)) @ drop 1 (Name field)\<rparr>)"
  by (simp add: ParseArgFromField_def Let_def)

lemma ParseArgFromField_success:
  assumes "ParseArgFromField U field = (arg, None)"
  shows "2 \<le> length (Name field)"
    and "ParseArgFromField_loop U (Name field) 0 (Split (Get (Tag field) ''arg'') CHR '','')
         (zeroArgument\<lparr>LongName := ToLower U (take 1 (Name field)) @ drop 1 (Name field)\<rparr>)
         = (arg, None)"
proof -
  show 1: "2 \<le> length (Name field)"
  proof (rule ccontr)
    assume "\<not> 2 \<le> length (Name field)"
    then have "length (Name field) < 2" by simp
    from ParseArgFromField_short [OF this, of U] assms show False by simp
  qed
  from ParseArgFromField_long [OF 1, of U] assms
  show "ParseArgFromField_loop U (Name field) 0 (Split (Get (Tag field) ''arg'') CHR '','')
         (zeroArgument\<lparr>LongName := ToLower U (take 1 (Name field)) @ drop 1 (Name field)\<rparr>)
         = (arg, None)" by simp
qed

lemma ToLower_ASCII: "isASCII s \<Longrightarrow> ToLower U s = map toLowerASCII s"
  by (simp add: ToLower_def)

lemma ToLower_single:
  "ToLower U [c] = (if (of_char c :: nat) < 128 then [toLowerASCII c] else U [c])"
  by (simp add: ToLower_def isASCII_def)


lemma take1_drop1: "2 \<le> length n \<Longrightarrow> take 1 n = [hd n] \<and> drop 1 n = tl n \<and> tl n \<noteq> []"
  by (cases n; cases "tl n") auto


section \<open>The claims\<close>

text \<open>
  C1. The code lower-cases the first byte of the name, not its first character. The
  field name \<open>Ea\<close> with an acute accent on the \<open>E\<close> is the bytes \<open>C3 89 61\<close>; with a tag
  that sets no long name the parse succeeds and \<open>LongName\<close> is \<open>strings.ToLower\<close> of
  the lone byte \<open>C3\<close> followed by \<open>89 61\<close>. Whatever \<open>strings.ToLower\<close> returns for that
  byte, this is not the name with its first character lower-cased (the bytes
  \<open>C3 A9 61\<close>), because the byte \<open>89\<close> is kept; with the library's replacement of an
  invalid byte it is \<open>EF BF BD 89 61\<close>.
\<close>

theorem C1_non_ascii_first_character:
  "ParseArgFromField U
     \<lparr>Name = [CHR 0xC3, CHR 0x89, CHR 0x61], Tag = [(''arg'', ''required=true'')]\<rparr>
     = (\<lparr>Required = True, LongName = U [CHR 0xC3] @ [CHR 0x89, CHR 0x61], ShortName = [],
         HasDefaultValue = False, DefaultValue = []\<rparr>, None) \<and>
   U [CHR 0xC3] @ [CHR 0x89, CHR 0x61] \<noteq> [CHR 0xC3, CHR 0xA9, CHR 0x61] \<and>
   ParseArgFromField mapLowerLoneByte
     \<lparr>Name = [CHR 0xC3, CHR 0x89, CHR 0x61], Tag = [(''arg'', ''required=true'')]\<rparr>
     = (\<lparr>Required = True, LongName = [CHR 0xEF, CHR 0xBF, CHR 0xBD, CHR 0x89, CHR 0x61],
         ShortName = [], HasDefaultValue = False, DefaultValue = []\<rparr>, None)"
proof (intro conjI)
  have sp: "Split ''required=true'' CHR '','' = [''required=true'']" by code_simp
  have sp2: "Split ''required=true'' CHR ''='' = [''required'', ''true'']" by code_simp
  have tl: "ToLower U ''required'' = ''required''" by code_simp
  have pb: "ParseBool ''true'' = Some True" by code_simp
  have n: "ToLower U [CHR 0xC3] = U [CHR 0xC3]" by (simp add: ToLower_single)
  show "ParseArgFromField U
     \<lparr>Name = [CHR 0xC3, CHR 0x89, CHR 0x61], Tag = [(''arg'', ''required=true'')]\<rparr>
     = (\<lparr>Required = True, LongName = U [CHR 0xC3] @ [CHR 0x89, CHR 0x61], ShortName = [],
         HasDefaultValue = False, DefaultValue = []\<rparr>, None)"
    by (simp add: ParseArgFromField_def Get_def sp sp2 tl pb n processArg_def
        processArgRequired_def zeroArgument_def)
  show "U [CHR 0xC3] @ [CHR 0x89, CHR 0x61] \<noteq> [CHR 0xC3, CHR 0xA9, CHR 0x61]"
  proof
    assume "U [CHR 0xC3] @ [CHR 0x89, CHR 0x61] = [CHR 0xC3, CHR 0xA9, CHR 0x61]"
    then have "rev (U [CHR 0xC3] @ [CHR 0x89, CHR 0x61]) = rev [CHR 0xC3, CHR 0xA9, CHR 0x61]"
      by (rule arg_cong)
    then have "CHR 0x61 # CHR 0x89 # rev (U [CHR 0xC3]) = [CHR 0x61, CHR 0xA9, CHR 0xC3]"
      by simp
    then show False by simp
  qed
  show "ParseArgFromField mapLowerLoneByte
     \<lparr>Name = [CHR 0xC3, CHR 0x89, CHR 0x61], Tag = [(''arg'', ''required=true'')]\<rparr>
     = (\<lparr>Required = True, LongName = [CHR 0xEF, CHR 0xBF, CHR 0xBD, CHR 0x89, CHR 0x61],
         ShortName = [], HasDefaultValue = False, DefaultValue = []\<rparr>, None)"
    by code_simp
qed

text \<open>
  What the code does guarantee for the derived name. For a field whose name has at
  least two bytes, a successful \<open>ParseArgFromField\<close> returns a \<open>LongName\<close> that is
  \<open>strings.ToLower\<close> of the first byte followed by the other bytes unchanged, unless some
  item \<open>longname=v\<close> with a non-empty \<open>v\<close> overrides it. When the first byte is below
  \<open>0x80\<close>, and so is the whole first character, that is the name with its first
  character lower-cased.
\<close>

theorem C1_long_name_default:
  assumes "2 \<le> length (Name field)"
    and "ParseArgFromField U field = (arg, None)"
    and "\<not> (\<exists>item\<in>set (Split (Get (Tag field) ''arg'') CHR '','').
             \<exists>k v. Split item CHR ''='' = [k, v] \<and> ToLower U k = ''longname'' \<and> v \<noteq> [])"
  shows "LongName arg = ToLower U [hd (Name field)] @ tl (Name field) \<and>
         (isASCII [hd (Name field)] \<longrightarrow>
            LongName arg = toLowerASCII (hd (Name field)) # tl (Name field))"
proof -
  let ?items = "Split (Get (Tag field) ''arg'') CHR '',''"
  let ?d = "ToLower U (take 1 (Name field)) @ drop 1 (Name field)"
  have "set (filter (\<lambda>v. v \<noteq> []) (tagValues U ''longname'' ?items)) = {}"
    using assms(3) unfolding set_filter tagValues_set by blast
  then have e: "filter (\<lambda>v. v \<noteq> []) (tagValues U ''longname'' ?items) = []" by simp
  from loop_LongName [OF ParseArgFromField_success(2) [OF assms(2)]]
  have "LongName arg = ?d" by (simp add: e)
  with take1_drop1 [OF assms(1)]
  have 1: "LongName arg = ToLower U [hd (Name field)] @ tl (Name field)" by simp
  then show ?thesis by (simp add: ToLower_def)
qed

theorem C1_long_name_default_witness:
  "ParseArgFromField (\<lambda>s. s)
     \<lparr>Name = ''UserName'', Tag = [(''arg'', ''required=true,shortname=u'')]\<rparr>
   = (\<lparr>Required = True, LongName = ''userName'', ShortName = ''u'', HasDefaultValue = False,
       DefaultValue = []\<rparr>, None) \<and>
   LongName \<lparr>Required = True, LongName = ''userName'', ShortName = ''u'',
     HasDefaultValue = False, DefaultValue = []\<rparr>
   = toLowerASCII (hd ''UserName'') # tl ''UserName''"
proof -
  let ?f = "\<lparr>Name = ''UserName'', Tag = [(''arg'', ''required=true,shortname=u'')]\<rparr>"
  let ?a = "\<lparr>Required = True, LongName = ''userName'', ShortName = ''u'',
     HasDefaultValue = False, DefaultValue = []\<rparr>"
  have h1: "2 \<le> length (Name ?f)" by simp
  have h2: "ParseArgFromField (\<lambda>s. s) ?f = (?a, None)" by code_simp
  have "filter (\<lambda>v. v \<noteq> [])
          (tagValues (\<lambda>s. s) ''longname'' (Split (Get (Tag ?f) ''arg'') CHR '','')) = []"
    by code_simp
  then have "set (filter (\<lambda>v. v \<noteq> [])
          (tagValues (\<lambda>s. s) ''longname'' (Split (Get (Tag ?f) ''arg'') CHR '',''))) = {}"
    by (simp only: set_empty)
  then have h3: "\<not> (\<exists>item\<in>set (Split (Get (Tag ?f) ''arg'') CHR '','').
             \<exists>k v. Split item CHR ''='' = [k, v] \<and> ToLower (\<lambda>s. s) k = ''longname'' \<and> v \<noteq> [])"
    unfolding set_filter tagValues_set by blast
  have h4: "isASCII [hd (Name ?f)]" by code_simp
  from C1_long_name_default [OF h1 h2 h3] h4
  have "LongName ?a = toLowerASCII (hd (Name ?f)) # tl (Name ?f)" by blast
  with h2 show ?thesis by simp
qed




text \<open>
  C10. Whenever \<open>ParseArgFromField\<close> succeeds, \<open>LongName\<close> is not empty: the name derived
  from the field is not empty, and \<open>LongName\<close> is either that name or the non-empty value
  of a \<open>longname\<close> item; an item \<open>longname=\<close> with an empty value changes nothing.
\<close>

theorem C10_long_name_not_empty:
  assumes "ParseArgFromField U field = (arg, None)"
  shows "LongName arg \<noteq> [] \<and>
         ToLower U (take 1 (Name field)) @ drop 1 (Name field) \<noteq> [] \<and>
         (LongName arg = ToLower U (take 1 (Name field)) @ drop 1 (Name field) \<or>
          (\<exists>item\<in>set (Split (Get (Tag field) ''arg'') CHR '','').
             \<exists>k. Split item CHR ''='' = [k, LongName arg] \<and> ToLower U k = ''longname'')) \<and>
         processArgLongName arg [] = arg"
proof -
  let ?items = "Split (Get (Tag field) ''arg'') CHR '',''"
  let ?d = "ToLower U (take 1 (Name field)) @ drop 1 (Name field)"
  let ?vs = "filter (\<lambda>v. v \<noteq> []) (tagValues U ''longname'' ?items)"
  from ParseArgFromField_success [OF assms] have l: "2 \<le> length (Name field)"
    and lp: "ParseArgFromField_loop U (Name field) 0 ?items (zeroArgument\<lparr>LongName := ?d\<rparr>)
             = (arg, None)" by simp_all
  from take1_drop1 [OF l] have d: "?d \<noteq> []" by simp
  from loop_LongName [OF lp] have eq: "LongName arg = lastOr ?d ?vs" by simp
  from lastOr_in [of ?d ?vs] eq have alt: "LongName arg = ?d \<or> LongName arg \<in> set ?vs" by simp
  have mem: "LongName arg \<in> set ?vs \<Longrightarrow>
     LongName arg \<noteq> [] \<and> (\<exists>item\<in>set ?items.
             \<exists>k. Split item CHR ''='' = [k, LongName arg] \<and> ToLower U k = ''longname'')"
    unfolding set_filter tagValues_set by blast
  from alt d mem have 1: "LongName arg \<noteq> []" by metis
  from alt mem have 2: "LongName arg = ?d \<or> (\<exists>item\<in>set ?items.
             \<exists>k. Split item CHR ''='' = [k, LongName arg] \<and> ToLower U k = ''longname'')"
    by blast
  have 3: "processArgLongName arg [] = arg" by (simp add: processArgLongName_def)
  from 1 d 2 3 show ?thesis by blast
qed

theorem C10_long_name_not_empty_witness:
  "ParseArgFromField (\<lambda>s. s) \<lparr>Name = ''Ab'', Tag = [(''arg'', ''longname=,shortname=a'')]\<rparr>
     = (\<lparr>Required = False, LongName = ''ab'', ShortName = ''a'', HasDefaultValue = False,
         DefaultValue = []\<rparr>, None) \<and>
   LongName \<lparr>Required = False, LongName = ''ab'', ShortName = ''a'', HasDefaultValue = False,
         DefaultValue = []\<rparr> \<noteq> []"
proof -
  let ?f = "\<lparr>Name = ''Ab'', Tag = [(''arg'', ''longname=,shortname=a'')]\<rparr>"
  let ?a = "\<lparr>Required = False, LongName = ''ab'', ShortName = ''a'', HasDefaultValue = False,
         DefaultValue = []\<rparr>"
  have h: "ParseArgFromField (\<lambda>s. s) ?f = (?a, None)" by code_simp
  from C10_long_name_not_empty [OF h] have "LongName ?a \<noteq> []" by blast
  with h show ?thesis by blast
qed

lemma Split_defaultvalue_empty: "Split ''defaultvalue='' CHR ''='' = [''defaultvalue'', []]"
  by code_simp

lemma Split_single_defaultvalue: "Split ''defaultvalue='' CHR '','' = [''defaultvalue='']"
  by code_simp

lemma ToLower_defaultvalue: "ToLower U ''defaultvalue'' = ''defaultvalue''"
  by code_simp

text \<open>
  C7. After a successful parse, \<open>HasDefaultValue\<close> is true exactly when some item of the
  tag has the name \<open>defaultvalue\<close> (compared after \<open>strings.ToLower\<close>), whatever its
  value, and \<open>DefaultValue\<close> is the value of the last such item. With the tag
  \<open>defaultvalue=\<close> the parse succeeds with \<open>HasDefaultValue\<close> true and \<open>DefaultValue\<close>
  empty.
\<close>

theorem C7_has_default_value:
  "(ParseArgFromField U field = (arg, None) \<longrightarrow>
      (HasDefaultValue arg \<longleftrightarrow>
         (\<exists>item\<in>set (Split (Get (Tag field) ''arg'') CHR '','').
            \<exists>k v. Split item CHR ''='' = [k, v] \<and> ToLower U k = ''defaultvalue'')) \<and>
      DefaultValue arg =
        (if tagValues U ''defaultvalue'' (Split (Get (Tag field) ''arg'') CHR '','') = [] then []
         else last (tagValues U ''defaultvalue'' (Split (Get (Tag field) ''arg'') CHR '','')))) \<and>
   (2 \<le> length name \<longrightarrow>
      ParseArgFromField U \<lparr>Name = name, Tag = [(''arg'', ''defaultvalue='')]\<rparr> =
        (\<lparr>Required = False, LongName = ToLower U (take 1 name) @ drop 1 name, ShortName = [],
          HasDefaultValue = True, DefaultValue = []\<rparr>, None))"
proof (intro conjI impI)
  let ?items = "Split (Get (Tag field) ''arg'') CHR '',''"
  assume s: "ParseArgFromField U field = (arg, None)"
  note lp = ParseArgFromField_success(2) [OF s]
  from loop_HasDefaultValue [OF lp]
  have "HasDefaultValue arg \<longleftrightarrow> tagValues U ''defaultvalue'' ?items \<noteq> []"
    by (simp add: zeroArgument_def)
  then show "HasDefaultValue arg \<longleftrightarrow>
         (\<exists>item\<in>set ?items. \<exists>k v. Split item CHR ''='' = [k, v] \<and> ToLower U k = ''defaultvalue'')"
    by (simp only: tagValues_empty_iff not_not)
  from loop_DefaultValue [OF lp]
  show "DefaultValue arg =
        (if tagValues U ''defaultvalue'' ?items = [] then []
         else last (tagValues U ''defaultvalue'' ?items))"
    by (simp add: zeroArgument_def lastOr_eq)
next
  assume "2 \<le> length name"
  then have "ParseArgFromField U \<lparr>Name = name, Tag = [(''arg'', ''defaultvalue='')]\<rparr> =
      ParseArgFromField_loop U name 0 [''defaultvalue='']
        (zeroArgument\<lparr>LongName := ToLower U (take 1 name) @ drop 1 name\<rparr>)"
    by (simp add: ParseArgFromField_long Get_def Split_single_defaultvalue)
  also have "\<dots> = (\<lparr>Required = False, LongName = ToLower U (take 1 name) @ drop 1 name,
          ShortName = [], HasDefaultValue = True, DefaultValue = []\<rparr>, None)"
    by (simp add: Split_defaultvalue_empty ToLower_defaultvalue processArg_def
        processArgDefaultValue_def zeroArgument_def)
  finally show "ParseArgFromField U \<lparr>Name = name, Tag = [(''arg'', ''defaultvalue='')]\<rparr> =
        (\<lparr>Required = False, LongName = ToLower U (take 1 name) @ drop 1 name, ShortName = [],
          HasDefaultValue = True, DefaultValue = []\<rparr>, None)" .
qed

theorem C7_has_default_value_witness:
  "ParseArgFromField (\<lambda>s. s) \<lparr>Name = ''Port'', Tag = [(''arg'', ''DefaultValue=8080,required=0'')]\<rparr>
     = (\<lparr>Required = False, LongName = ''port'', ShortName = [], HasDefaultValue = True,
         DefaultValue = ''8080''\<rparr>, None) \<and>
   tagValues (\<lambda>s. s) ''defaultvalue'' (Split ''DefaultValue=8080,required=0'' CHR '','') = [''8080''] \<and>
   DefaultValue \<lparr>Required = False, LongName = ''port'', ShortName = [], HasDefaultValue = True,
         DefaultValue = ''8080''\<rparr> = last [''8080''] \<and>
   ParseArgFromField (\<lambda>s. s) \<lparr>Name = ''Port'', Tag = [(''arg'', ''defaultvalue='')]\<rparr>
     = (\<lparr>Required = False, LongName = ''port'', ShortName = [], HasDefaultValue = True,
         DefaultValue = []\<rparr>, None)"
proof -
  let ?f = "\<lparr>Name = ''Port'', Tag = [(''arg'', ''DefaultValue=8080,required=0'')]\<rparr>"
  let ?a = "\<lparr>Required = False, LongName = ''port'', ShortName = [], HasDefaultValue = True,
         DefaultValue = ''8080''\<rparr>"
  have h: "ParseArgFromField (\<lambda>s. s) ?f = (?a, None)" by code_simp
  have t: "tagValues (\<lambda>s. s) ''defaultvalue'' (Split ''DefaultValue=8080,required=0'' CHR '','')
           = [''8080'']" by code_simp
  have l: "2 \<le> length ''Port''" by simp
  have tl: "ToLower (\<lambda>s. s) (take 1 ''Port'') @ drop 1 ''Port'' = ''port''" by code_simp
  from C7_has_default_value [of "\<lambda>s. s" ?f ?a "''Port''"] l
  have "ParseArgFromField (\<lambda>s. s) \<lparr>Name = ''Port'', Tag = [(''arg'', ''defaultvalue='')]\<rparr> =
        (\<lparr>Required = False, LongName = ToLower (\<lambda>s. s) (take 1 ''Port'') @ drop 1 ''Port'',
          ShortName = [], HasDefaultValue = True, DefaultValue = []\<rparr>, None)"
    by blast
  then have 3: "ParseArgFromField (\<lambda>s. s) \<lparr>Name = ''Port'', Tag = [(''arg'', ''defaultvalue='')]\<rparr>
     = (\<lparr>Required = False, LongName = ''port'', ShortName = [], HasDefaultValue = True,
         DefaultValue = []\<rparr>, None)"
    by (simp only: tl)
  from C7_has_default_value [of "\<lambda>s. s" ?f ?a "''Port''"] h
  have "DefaultValue ?a =
        (if tagValues (\<lambda>s. s) ''defaultvalue'' (Split (Get (Tag ?f) ''arg'') CHR '','') = [] then []
         else last (tagValues (\<lambda>s. s) ''defaultvalue'' (Split (Get (Tag ?f) ''arg'') CHR '','')))"
    by blast
  moreover have "Get (Tag ?f) ''arg'' = ''DefaultValue=8080,required=0''" by (simp add: Get_def)
  ultimately have 2: "DefaultValue ?a = last [''8080'']" by (simp only: t list.simps if_False)
  from h t 2 3 show ?thesis by (intro conjI)
qed


lemma Split_two_longnames:
  "Split ''longname=foo,longname=bar'' CHR '','' = [''longname=foo'', ''longname=bar'']"
  by code_simp

lemma Split_longname_foo: "Split ''longname=foo'' CHR ''='' = [''longname'', ''foo'']"
  by code_simp

lemma Split_longname_bar: "Split ''longname=bar'' CHR ''='' = [''longname'', ''bar'']"
  by code_simp

lemma ToLower_longname: "ToLower U ''longname'' = ''longname''"
  by code_simp

text \<open>
  C8, as stated, fails for \<open>longname\<close>: in \<open>longname=foo,longname=\<close> the key occurs twice
  and its last occurrence has the empty value, yet \<open>LongName\<close> is \<open>foo\<close>, the value of the
  first occurrence; the last occurrence alone would leave the derived name \<open>ab\<close>.
\<close>

theorem C8_last_occurrence_counterexample:
  "tagValues (\<lambda>s. s) ''longname'' (Split ''longname=foo,longname='' CHR '','') = [''foo'', []] \<and>
   ParseArgFromField (\<lambda>s. s) \<lparr>Name = ''Ab'', Tag = [(''arg'', ''longname=foo,longname='')]\<rparr>
     = (\<lparr>Required = False, LongName = ''foo'', ShortName = [], HasDefaultValue = False,
         DefaultValue = []\<rparr>, None) \<and>
   ParseArgFromField (\<lambda>s. s) \<lparr>Name = ''Ab'', Tag = [(''arg'', ''longname='')]\<rparr>
     = (\<lparr>Required = False, LongName = ''ab'', ShortName = [], HasDefaultValue = False,
         DefaultValue = []\<rparr>, None)"
  by code_simp

text \<open>
  C8, amended. The items are processed in the order written. After a successful parse,
  \<open>Required\<close>, \<open>ShortName\<close> and \<open>DefaultValue\<close> come from the last item with the key
  \<open>required\<close>, \<open>shortname\<close> and \<open>defaultvalue\<close>, and \<open>LongName\<close> from the last
  \<open>longname\<close> item whose value is not empty; a field no item sets keeps its initial
  value. The tag \<open>longname=foo,longname=bar\<close> gives the \<open>LongName\<close> \<open>bar\<close>.
\<close>

theorem C8_last_occurrence_wins:
  "(ParseArgFromField U field = (arg, None) \<and>
    items = Split (Get (Tag field) ''arg'') CHR '','' \<longrightarrow>
      Required arg =
        (if tagValues U ''required'' items = [] then False
         else ParseBool (last (tagValues U ''required'' items)) = Some True) \<and>
      LongName arg =
        (if filter (\<lambda>v. v \<noteq> []) (tagValues U ''longname'' items) = []
         then ToLower U (take 1 (Name field)) @ drop 1 (Name field)
         else last (filter (\<lambda>v. v \<noteq> []) (tagValues U ''longname'' items))) \<and>
      ShortName arg =
        (if tagValues U ''shortname'' items = [] then []
         else ToLower U (last (tagValues U ''shortname'' items))) \<and>
      HasDefaultValue arg = (tagValues U ''defaultvalue'' items \<noteq> []) \<and>
      DefaultValue arg =
        (if tagValues U ''defaultvalue'' items = [] then []
         else last (tagValues U ''defaultvalue'' items))) \<and>
   (2 \<le> length name \<longrightarrow>
      ParseArgFromField U \<lparr>Name = name, Tag = [(''arg'', ''longname=foo,longname=bar'')]\<rparr> =
        (\<lparr>Required = False, LongName = ''bar'', ShortName = [], HasDefaultValue = False,
          DefaultValue = []\<rparr>, None))"
proof (intro conjI impI)
  assume "ParseArgFromField U field = (arg, None) \<and>
    items = Split (Get (Tag field) ''arg'') CHR '',''"
  then have s: "ParseArgFromField U field = (arg, None)"
    and i: "Split (Get (Tag field) ''arg'') CHR '','' = items" by simp_all
  note lp = ParseArgFromField_success(2) [OF s, unfolded i]
  from loop_Required [OF lp]
  show "Required arg =
        (if tagValues U ''required'' items = [] then False
         else ParseBool (last (tagValues U ''required'' items)) = Some True)"
    by (simp add: zeroArgument_def lastOr_eq last_map)
  from loop_LongName [OF lp]
  show "LongName arg =
        (if filter (\<lambda>v. v \<noteq> []) (tagValues U ''longname'' items) = []
         then ToLower U (take 1 (Name field)) @ drop 1 (Name field)
         else last (filter (\<lambda>v. v \<noteq> []) (tagValues U ''longname'' items)))"
    by (simp add: lastOr_eq)
  from loop_ShortName [OF lp]
  show "ShortName arg =
        (if tagValues U ''shortname'' items = [] then []
         else ToLower U (last (tagValues U ''shortname'' items)))"
    by (simp add: zeroArgument_def lastOr_eq last_map)
  from loop_HasDefaultValue [OF lp]
  show "HasDefaultValue arg = (tagValues U ''defaultvalue'' items \<noteq> [])"
    by (simp add: zeroArgument_def)
  from loop_DefaultValue [OF lp]
  show "DefaultValue arg =
        (if tagValues U ''defaultvalue'' items = [] then []
         else last (tagValues U ''defaultvalue'' items))"
    by (simp add: zeroArgument_def lastOr_eq)
next
  assume "2 \<le> length name"
  then have "ParseArgFromField U \<lparr>Name = name, Tag = [(''arg'', ''longname=foo,longname=bar'')]\<rparr> =
      ParseArgFromField_loop U name 0 [''longname=foo'', ''longname=bar'']
        (zeroArgument\<lparr>LongName := ToLower U (take 1 name) @ drop 1 name\<rparr>)"
    by (simp add: ParseArgFromField_long Get_def Split_two_longnames)
  also have "\<dots> = (\<lparr>Required = False, LongName = ''bar'', ShortName = [],
          HasDefaultValue = False, DefaultValue = []\<rparr>, None)"
    by (simp add: Split_longname_foo Split_longname_bar ToLower_longname processArg_def
        processArgLongName_def zeroArgument_def)
  finally show "ParseArgFromField U \<lparr>Name = name, Tag = [(''arg'', ''longname=foo,longname=bar'')]\<rparr> =
        (\<lparr>Required = False, LongName = ''bar'', ShortName = [], HasDefaultValue = False,
          DefaultValue = []\<rparr>, None)" .
qed

theorem C8_last_occurrence_wins_witness:
  "ParseArgFromField (\<lambda>s. s)
     \<lparr>Name = ''Ab'', Tag = [(''arg'', ''shortname=x,required=true,shortname=Y,required=0'')]\<rparr>
     = (\<lparr>Required = False, LongName = ''ab'', ShortName = ''y'', HasDefaultValue = False,
         DefaultValue = []\<rparr>, None) \<and>
   tagValues (\<lambda>s. s) ''shortname'' (Split ''shortname=x,required=true,shortname=Y,required=0'' CHR '','')
     = [''x'', ''Y''] \<and>
   ShortName \<lparr>Required = False, LongName = ''ab'', ShortName = ''y'', HasDefaultValue = False,
         DefaultValue = []\<rparr> = ToLower (\<lambda>s. s) (last [''x'', ''Y'']) \<and>
   ParseArgFromField (\<lambda>s. s) \<lparr>Name = ''Ab'', Tag = [(''arg'', ''longname=foo,longname=bar'')]\<rparr>
     = (\<lparr>Required = False, LongName = ''bar'', ShortName = [], HasDefaultValue = False,
          DefaultValue = []\<rparr>, None)"
proof -
  let ?t = "''shortname=x,required=true,shortname=Y,required=0''"
  let ?f = "\<lparr>Name = ''Ab'', Tag = [(''arg'', ?t)]\<rparr>"
  let ?a = "\<lparr>Required = False, LongName = ''ab'', ShortName = ''y'', HasDefaultValue = False,
         DefaultValue = []\<rparr>"
  have h: "ParseArgFromField (\<lambda>s. s) ?f = (?a, None)" by code_simp
  have g: "Split ?t CHR '','' = Split (Get (Tag ?f) ''arg'') CHR '',''" by (simp add: Get_def)
  have t: "tagValues (\<lambda>s. s) ''shortname'' (Split ?t CHR '','') = [''x'', ''Y'']" by code_simp
  from C8_last_occurrence_wins [of "\<lambda>s. s" ?f ?a "Split ?t CHR '',''" "''Ab''"] h g
  have "ShortName ?a =
        (if tagValues (\<lambda>s. s) ''shortname'' (Split ?t CHR '','') = [] then []
         else ToLower (\<lambda>s. s) (last (tagValues (\<lambda>s. s) ''shortname'' (Split ?t CHR '',''))))"
    by blast
  then have 2: "ShortName ?a = ToLower (\<lambda>s. s) (last [''x'', ''Y''])"
    by (simp only: t list.simps if_False)
  have l: "2 \<le> length ''Ab''" by simp
  from C8_last_occurrence_wins [of "\<lambda>s. s" ?f ?a "Split ?t CHR '',''" "''Ab''"] l
  have 3: "ParseArgFromField (\<lambda>s. s) \<lparr>Name = ''Ab'', Tag = [(''arg'', ''longname=foo,longname=bar'')]\<rparr>
     = (\<lparr>Required = False, LongName = ''bar'', ShortName = [], HasDefaultValue = False,
          DefaultValue = []\<rparr>, None)"
    by blast
  from h t 2 3 show ?thesis by (intro conjI)
qed

lemma Split_two_iff: "length (Split s sep) = 2 \<longleftrightarrow> count_list s sep = 1"
  by (simp add: length_Split)

text \<open>
  C2, as stated, fails when an earlier item raises another error: in \<open>required=x,bad\<close>
  the item at index 1 is the first that does not split into two parts, but the parse
  stops at index 0 with \<open>InvalidBooleanValue\<close>.
\<close>

theorem C2_malformed_item_counterexample:
  "Split ''required=x,bad'' CHR '','' = [''required=x'', ''bad''] \<and>
   length (Split ''required=x'' CHR ''='') = 2 \<and>
   length (Split ''bad'' CHR ''='') \<noteq> 2 \<and>
   ParseArgFromField (\<lambda>s. s) \<lparr>Name = ''Ab'', Tag = [(''arg'', ''required=x,bad'')]\<rparr>
     = (\<lparr>Required = False, LongName = ''ab'', ShortName = [], HasDefaultValue = False,
         DefaultValue = []\<rparr>, Some (InvalidBooleanValue ''Ab'' ''required'' ''x'')) \<and>
   InvalidBooleanValue ''Ab'' ''required'' ''x'' \<noteq> MalformedTagItem 1 ''Ab''"
  by code_simp

text \<open>
  C2, amended. \<open>ParseArgFromField\<close> splits the tag at \<open>,\<close> into items and each item at
  \<open>=\<close>. For a field name of at least two bytes: if the item at index \<open>i\<close> does not split
  into exactly two parts (it does not contain exactly one \<open>=\<close>) and every item before it
  is accepted (it splits into two parts, and is neither a \<open>required\<close> with a value that
  is no boolean nor a \<open>shortname\<close> with a value longer than one byte), the parse fails
  with \<open>MalformedTagItem\<close> naming \<open>i\<close> and the field, and the argument returned is the one
  built from the items before \<open>i\<close>: no later item is processed.
\<close>

theorem C2_malformed_item:
  assumes "2 \<le> length (Name field)"
    and "items = Split (Get (Tag field) ''arg'') CHR '',''"
    and "i < length items"
    and "\<forall>j<i. itemAccepted U (items ! j)"
    and "count_list (items ! i) CHR ''='' \<noteq> 1"
  shows "length (Split (items ! i) CHR ''='') \<noteq> 2 \<and>
         ParseArgFromField U field =
           (fst (ParseArgFromField_loop U (Name field) 0 (take i items)
                  (zeroArgument\<lparr>LongName := ToLower U (take 1 (Name field)) @ drop 1 (Name field)\<rparr>)),
            Some (MalformedTagItem i (Name field)))"
proof -
  from assms(5) have m: "length (Split (items ! i) CHR ''='') \<noteq> 2"
    by (simp add: Split_two_iff)
  from loop_malformed_at [OF assms(3) assms(4) m, of "Name field" 0]
    ParseArgFromField_long [OF assms(1), of U] assms(2) m
  show ?thesis by simp
qed

theorem C2_malformed_item_witness:
  "ParseArgFromField (\<lambda>s. s) \<lparr>Name = ''Ab'', Tag = [(''arg'', ''required=1,a=b=c,shortname=u'')]\<rparr>
     = (\<lparr>Required = True, LongName = ''ab'', ShortName = [], HasDefaultValue = False,
         DefaultValue = []\<rparr>, Some (MalformedTagItem 1 ''Ab''))"
proof -
  let ?t = "''required=1,a=b=c,shortname=u''"
  let ?f = "\<lparr>Name = ''Ab'', Tag = [(''arg'', ?t)]\<rparr>"
  let ?items = "[''required=1'', ''a=b=c'', ''shortname=u'']"
  have h1: "2 \<le> length (Name ?f)" by simp
  have h2: "?items = Split (Get (Tag ?f) ''arg'') CHR '',''" by code_simp
  have h3: "1 < length ?items" by simp
  have "itemAccepted (\<lambda>s. s) ''required=1''" by code_simp
  then have h4: "\<forall>j<1. itemAccepted (\<lambda>s. s) (?items ! j)" by simp
  have h5: "count_list (?items ! 1) CHR ''='' \<noteq> 1" by simp
  have nm: "Name ?f = ''Ab''" by simp
  have e: "fst (ParseArgFromField_loop (\<lambda>s. s) ''Ab'' 0 (take 1 ?items)
                  (zeroArgument\<lparr>LongName := ToLower (\<lambda>s. s) (take 1 ''Ab'') @ drop 1 ''Ab''\<rparr>))
           = \<lparr>Required = True, LongName = ''ab'', ShortName = [], HasDefaultValue = False,
         DefaultValue = []\<rparr>" by code_simp
  from C2_malformed_item [OF h1 h2 h3 h4 h5] have
    "ParseArgFromField (\<lambda>s. s) ?f =
           (fst (ParseArgFromField_loop (\<lambda>s. s) (Name ?f) 0 (take 1 ?items)
                  (zeroArgument\<lparr>LongName := ToLower (\<lambda>s. s) (take 1 (Name ?f)) @ drop 1 (Name ?f)\<rparr>)),
            Some (MalformedTagItem 1 (Name ?f)))" by blast
  then show ?thesis by (simp only: nm e)
qed









lemma parseArg_Inr:
  assumes "parseArg U parmType variableName = Inr (arg, rawHelp)"
  shows "\<exists>field. FieldByName parmType variableName = Some field \<and>
           ParseArgFromField U field = (arg, None) \<and> rawHelp = Get (Tag field) ''help''"
  using assms
  by (auto simp: parseArg_def split: option.splits prod.splits)

lemma attachCommonArg_nil:
  "\<not> HasDefaultValue arg \<Longrightarrow> attachCommonArg arg parmType variableName converter = Inr NilValue"
  by (simp add: attachCommonArg_def)

lemma AttachBoolArg_Inr:
  assumes "AttachBoolArg U fw cmd parmType variableName p = Inr cmd'"
  shows "\<exists>arg rawHelp b. parseArg U parmType variableName = Inr (arg, rawHelp) \<and>
           HasDefaultValue arg \<and> ParseBool (DefaultValue arg) = Some b"
proof -
  from assms obtain arg rawHelp where pa: "parseArg U parmType variableName = Inr (arg, rawHelp)"
    by (auto simp: AttachBoolArg_def split: sum.splits)
  from assms pa obtain dv where
    ac: "attachCommonArg arg parmType variableName booleanStringToValueConverter = Inr dv"
    by (auto simp: AttachBoolArg_def split: sum.splits)
  from assms pa ac obtain b where ab: "assertBool dv = Inr b"
    by (auto simp: AttachBoolArg_def split: sum.splits)
  then have dv: "dv = BoolValue b" by (cases dv) (simp_all add: assertBool_def)
  have h: "HasDefaultValue arg"
  proof (rule ccontr)
    assume "\<not> HasDefaultValue arg"
    from attachCommonArg_nil [OF this] ac dv show False by simp
  qed
  with ac dv have "ParseBool (DefaultValue arg) = Some b"
    by (auto simp: attachCommonArg_def booleanStringToValueConverter_def
        split: sum.splits option.splits)
  with pa h show ?thesis by blast
qed

lemma AttachIntArg_Inr:
  assumes "AttachIntArg U fw cmd parmType variableName p = Inr cmd'"
  shows "\<exists>arg rawHelp n. parseArg U parmType variableName = Inr (arg, rawHelp) \<and>
           HasDefaultValue arg \<and> Atoi (DefaultValue arg) = Inr n"
proof -
  from assms obtain arg rawHelp where pa: "parseArg U parmType variableName = Inr (arg, rawHelp)"
    by (auto simp: AttachIntArg_def split: sum.splits)
  from assms pa obtain dv where
    ac: "attachCommonArg arg parmType variableName intStringToValueConverter = Inr dv"
    by (auto simp: AttachIntArg_def split: sum.splits)
  from assms pa ac obtain n where ab: "assertInt dv = Inr n"
    by (auto simp: AttachIntArg_def split: sum.splits)
  then have dv: "dv = IntValue n" by (cases dv) (simp_all add: assertInt_def)
  have h: "HasDefaultValue arg"
  proof (rule ccontr)
    assume "\<not> HasDefaultValue arg"
    from attachCommonArg_nil [OF this] ac dv show False by simp
  qed
  with ac dv have "Atoi (DefaultValue arg) = Inr n"
    by (auto simp: attachCommonArg_def intStringToValueConverter_def split: sum.splits)
  with pa h show ?thesis by blast
qed

lemma HasDefaultValue_item:
  assumes "ParseArgFromField U field = (arg, None)" and "HasDefaultValue arg"
  shows "\<exists>item\<in>set (Split (Get (Tag field) ''arg'') CHR '','').
           \<exists>k v. Split item CHR ''='' = [k, v] \<and> ToLower U k = ''defaultvalue''"
proof -
  from loop_HasDefaultValue [OF ParseArgFromField_success(2) [OF assms(1)]] assms(2)
  have "tagValues U ''defaultvalue'' (Split (Get (Tag field) ''arg'') CHR '','') \<noteq> []"
    by (simp add: zeroArgument_def)
  then show ?thesis by (simp only: tagValues_empty_iff not_not)
qed


text \<open>
  C3. When the parsed \<open>Argument\<close> has no default value, \<open>attachCommonArg\<close> returns \<open>nil\<close>
  and the type assertion that follows panics, so \<open>AttachBoolArg\<close> and \<open>AttachIntArg\<close>
  panic. Hence either of them returns normally only if the field's tag has a
  \<open>defaultvalue\<close> item and the default converts to the target type (\<open>strconv.ParseBool\<close>,
  \<open>strconv.Atoi\<close>). This holds for every command framework.
\<close>

theorem C3_attach_needs_default:
  "(\<not> HasDefaultValue arg \<longrightarrow>
      attachCommonArg arg parmType variableName converter = Inr NilValue \<and>
      assertBool NilValue = Inl NilTypeAssertion \<and> assertInt NilValue = Inl NilTypeAssertion) \<and>
   (parseArg U parmType variableName = Inr (arg, rawHelp) \<and> \<not> HasDefaultValue arg \<longrightarrow>
      AttachBoolArg U fw cmd parmType variableName p = Inl NilTypeAssertion \<and>
      AttachIntArg U fw cmd parmType variableName p = Inl NilTypeAssertion) \<and>
   (AttachBoolArg U fw cmd parmType variableName p = Inr cmd' \<longrightarrow>
      (\<exists>field a b. FieldByName parmType variableName = Some field \<and>
         ParseArgFromField U field = (a, None) \<and> HasDefaultValue a \<and>
         ParseBool (DefaultValue a) = Some b \<and>
         (\<exists>item\<in>set (Split (Get (Tag field) ''arg'') CHR '','').
            \<exists>k v. Split item CHR ''='' = [k, v] \<and> ToLower U k = ''defaultvalue''))) \<and>
   (AttachIntArg U fw cmd parmType variableName p = Inr cmd' \<longrightarrow>
      (\<exists>field a n. FieldByName parmType variableName = Some field \<and>
         ParseArgFromField U field = (a, None) \<and> HasDefaultValue a \<and>
         Atoi (DefaultValue a) = Inr n \<and>
         (\<exists>item\<in>set (Split (Get (Tag field) ''arg'') CHR '','').
            \<exists>k v. Split item CHR ''='' = [k, v] \<and> ToLower U k = ''defaultvalue'')))"
proof (intro conjI impI)
  assume "\<not> HasDefaultValue arg"
  then show "attachCommonArg arg parmType variableName converter = Inr NilValue"
    by (rule attachCommonArg_nil)
next
  show "assertBool NilValue = Inl NilTypeAssertion" by (simp add: assertBool_def)
next
  show "assertInt NilValue = Inl NilTypeAssertion" by (simp add: assertInt_def)
next
  assume "parseArg U parmType variableName = Inr (arg, rawHelp) \<and> \<not> HasDefaultValue arg"
  then show "AttachBoolArg U fw cmd parmType variableName p = Inl NilTypeAssertion"
    by (simp add: AttachBoolArg_def attachCommonArg_def assertBool_def)
next
  assume "parseArg U parmType variableName = Inr (arg, rawHelp) \<and> \<not> HasDefaultValue arg"
  then show "AttachIntArg U fw cmd parmType variableName p = Inl NilTypeAssertion"
    by (simp add: AttachIntArg_def attachCommonArg_def assertInt_def)
next
  assume "AttachBoolArg U fw cmd parmType variableName p = Inr cmd'"
  from AttachBoolArg_Inr [OF this] obtain a h b where
    pa: "parseArg U parmType variableName = Inr (a, h)" and d: "HasDefaultValue a"
    and c: "ParseBool (DefaultValue a) = Some b" by blast
  from parseArg_Inr [OF pa] obtain field where
    f: "FieldByName parmType variableName = Some field"
    and s: "ParseArgFromField U field = (a, None)" by blast
  from f s d c HasDefaultValue_item [OF s d]
  show "\<exists>field a b. FieldByName parmType variableName = Some field \<and>
         ParseArgFromField U field = (a, None) \<and> HasDefaultValue a \<and>
         ParseBool (DefaultValue a) = Some b \<and>
         (\<exists>item\<in>set (Split (Get (Tag field) ''arg'') CHR '','').
            \<exists>k v. Split item CHR ''='' = [k, v] \<and> ToLower U k = ''defaultvalue'')"
    by blast
next
  assume "AttachIntArg U fw cmd parmType variableName p = Inr cmd'"
  from AttachIntArg_Inr [OF this] obtain a h n where
    pa: "parseArg U parmType variableName = Inr (a, h)" and d: "HasDefaultValue a"
    and c: "Atoi (DefaultValue a) = Inr n" by blast
  from parseArg_Inr [OF pa] obtain field where
    f: "FieldByName parmType variableName = Some field"
    and s: "ParseArgFromField U field = (a, None)" by blast
  from f s d c HasDefaultValue_item [OF s d]
  show "\<exists>field a n. FieldByName parmType variableName = Some field \<and>
         ParseArgFromField U field = (a, None) \<and> HasDefaultValue a \<and>
         Atoi (DefaultValue a) = Inr n \<and>
         (\<exists>item\<in>set (Split (Get (Tag field) ''arg'') CHR '','').
            \<exists>k v. Split item CHR ''='' = [k, v] \<and> ToLower U k = ''defaultvalue'')"
    by blast
qed

theorem C3_attach_needs_default_witness:
  "attachCommonArg
     \<lparr>Required = False, LongName = ''quiet'', ShortName = [], HasDefaultValue = False,
       DefaultValue = []\<rparr> exampleType ''Quiet'' booleanStringToValueConverter = Inr NilValue \<and>
   AttachBoolArg (\<lambda>s. s) listFramework [] exampleType ''Quiet'' () = Inl NilTypeAssertion \<and>
   AttachIntArg (\<lambda>s. s) listFramework [] exampleType ''Quiet'' () = Inl NilTypeAssertion \<and>
   AttachBoolArg (\<lambda>s. s) listFramework [] exampleType ''Verbose'' () =
     Inr [\<lparr>flagName = ''verbose'', flagShorthand = [], flagDefValue = BoolDefault True,
           flagUsage = ''optional: more output'', flagRequired = False\<rparr>] \<and>
   AttachIntArg (\<lambda>s. s) listFramework [] exampleType ''Port'' () =
     Inr [\<lparr>flagName = ''port'', flagShorthand = [], flagDefValue = IntDefault 8080,
           flagUsage = ''optional: the port'', flagRequired = False\<rparr>] \<and>
   (\<exists>field a b. FieldByName exampleType ''Verbose'' = Some field \<and>
      ParseArgFromField (\<lambda>s. s) field = (a, None) \<and> HasDefaultValue a \<and>
      ParseBool (DefaultValue a) = Some b) \<and>
   (\<exists>field a n. FieldByName exampleType ''Port'' = Some field \<and>
      ParseArgFromField (\<lambda>s. s) field = (a, None) \<and> HasDefaultValue a \<and>
      Atoi (DefaultValue a) = Inr n)"
proof -
  let ?q = "\<lparr>Required = False, LongName = ''quiet'', ShortName = [], HasDefaultValue = False,
             DefaultValue = []\<rparr>"
  let ?fv = "[\<lparr>flagName = ''verbose'', flagShorthand = [], flagDefValue = BoolDefault True,
           flagUsage = ''optional: more output'', flagRequired = False\<rparr>]"
  let ?fp = "[\<lparr>flagName = ''port'', flagShorthand = [], flagDefValue = IntDefault 8080,
           flagUsage = ''optional: the port'', flagRequired = False\<rparr>]"
  have h1: "parseArg (\<lambda>s. s) exampleType ''Quiet'' = Inr (?q, ''less output'')" by code_simp
  have h2: "\<not> HasDefaultValue ?q" by simp
  from C3_attach_needs_default [of ?q exampleType "''Quiet''" booleanStringToValueConverter
      "\<lambda>s. s" "''less output''" listFramework "[]" "()" ?fv] h1 h2
  have 0: "attachCommonArg ?q exampleType ''Quiet'' booleanStringToValueConverter = Inr NilValue"
    and 1: "AttachBoolArg (\<lambda>s. s) listFramework [] exampleType ''Quiet'' () = Inl NilTypeAssertion"
    and 2: "AttachIntArg (\<lambda>s. s) listFramework [] exampleType ''Quiet'' () = Inl NilTypeAssertion"
    by blast+
  have h3: "AttachBoolArg (\<lambda>s. s) listFramework [] exampleType ''Verbose'' () = Inr ?fv"
    by code_simp
  from C3_attach_needs_default [of ?q exampleType "''Verbose''" booleanStringToValueConverter
      "\<lambda>s. s" "''less output''" listFramework "[]" "()" ?fv] h3
  have 3: "\<exists>field a b. FieldByName exampleType ''Verbose'' = Some field \<and>
      ParseArgFromField (\<lambda>s. s) field = (a, None) \<and> HasDefaultValue a \<and>
      ParseBool (DefaultValue a) = Some b" by blast
  have h4: "AttachIntArg (\<lambda>s. s) listFramework [] exampleType ''Port'' () = Inr ?fp"
    by code_simp
  from C3_attach_needs_default [of ?q exampleType "''Port''" booleanStringToValueConverter
      "\<lambda>s. s" "''less output''" listFramework "[]" "()" ?fp] h4
  have 4: "\<exists>field a n. FieldByName exampleType ''Port'' = Some field \<and>
      ParseArgFromField (\<lambda>s. s) field = (a, None) \<and> HasDefaultValue a \<and>
      Atoi (DefaultValue a) = Inr n" by blast
  from 0 1 2 h3 h4 3 4 show ?thesis by (intro conjI)
qed

text \<open>
  C9. In \<open>AttachStringArg\<close> the default handed to the registration of the flag is the
  first element of \<open>otherArgs\<close> when there is one, whether or not the tag has a default;
  with no \<open>otherArgs\<close> it is the default of the tag when the tag has one, and the empty
  string otherwise.
\<close>

theorem C9_string_override:
  assumes "parseArg U parmType variableName = Inr (arg, rawHelp)"
  shows "AttachStringArg U fw cmd parmType variableName p (override # rest) =
           (case StringVarP fw cmd p (LongName arg) (ShortName arg) override
                   (rationalizeHelp arg rawHelp) of
              Inl msg \<Rightarrow> Inl (FrameworkPanic msg)
            | Inr cmd' \<Rightarrow> processRequiredArg fw cmd' arg) \<and>
         (HasDefaultValue arg \<longrightarrow>
            AttachStringArg U fw cmd parmType variableName p [] =
              (case StringVarP fw cmd p (LongName arg) (ShortName arg) (DefaultValue arg)
                      (rationalizeHelp arg rawHelp) of
                 Inl msg \<Rightarrow> Inl (FrameworkPanic msg)
               | Inr cmd' \<Rightarrow> processRequiredArg fw cmd' arg)) \<and>
         (\<not> HasDefaultValue arg \<longrightarrow>
            AttachStringArg U fw cmd parmType variableName p [] =
              (case StringVarP fw cmd p (LongName arg) (ShortName arg) []
                      (rationalizeHelp arg rawHelp) of
                 Inl msg \<Rightarrow> Inl (FrameworkPanic msg)
               | Inr cmd' \<Rightarrow> processRequiredArg fw cmd' arg))"
  using assms by (simp add: AttachStringArg_def Let_def)

theorem C9_string_override_witness:
  "AttachStringArg (\<lambda>s. s) listFramework [] exampleType ''Host'' () [''xyz''] =
     Inr [\<lparr>flagName = ''host'', flagShorthand = [], flagDefValue = StringDefault ''xyz'',
           flagUsage = ''optional: the host'', flagRequired = False\<rparr>] \<and>
   AttachStringArg (\<lambda>s. s) listFramework [] exampleType ''Host'' () [] =
     Inr [\<lparr>flagName = ''host'', flagShorthand = [], flagDefValue = StringDefault ''abc'',
           flagUsage = ''optional: the host'', flagRequired = False\<rparr>] \<and>
   AttachStringArg (\<lambda>s. s) listFramework [] exampleType ''Quiet'' () [] =
     Inr [\<lparr>flagName = ''quiet'', flagShorthand = [], flagDefValue = StringDefault [],
           flagUsage = ''optional: less output'', flagRequired = False\<rparr>]"
proof -
  let ?a = "\<lparr>Required = False, LongName = ''host'', ShortName = [], HasDefaultValue = True,
             DefaultValue = ''abc''\<rparr>"
  let ?q = "\<lparr>Required = False, LongName = ''quiet'', ShortName = [], HasDefaultValue = False,
             DefaultValue = []\<rparr>"
  have hq: "parseArg (\<lambda>s. s) exampleType ''Quiet'' = Inr (?q, ''less output'')" by code_simp
  have dq: "\<not> HasDefaultValue ?q" by simp
  have r3: "(case StringVarP listFramework [] () (LongName ?q) (ShortName ?q) []
                   (rationalizeHelp ?q ''less output'') of
              Inl msg \<Rightarrow> Inl (FrameworkPanic msg)
            | Inr cmd' \<Rightarrow> processRequiredArg listFramework cmd' ?q) =
     Inr [\<lparr>flagName = ''quiet'', flagShorthand = [], flagDefValue = StringDefault [],
           flagUsage = ''optional: less output'', flagRequired = False\<rparr>]" by code_simp
  from C9_string_override [OF hq, of listFramework "[]" "()" "''xyz''" "[]"] dq
  have 3: "AttachStringArg (\<lambda>s. s) listFramework [] exampleType ''Quiet'' () [] =
           (case StringVarP listFramework [] () (LongName ?q) (ShortName ?q) []
                   (rationalizeHelp ?q ''less output'') of
              Inl msg \<Rightarrow> Inl (FrameworkPanic msg)
            | Inr cmd' \<Rightarrow> processRequiredArg listFramework cmd' ?q)"
    by blast
  have h: "parseArg (\<lambda>s. s) exampleType ''Host'' = Inr (?a, ''the host'')" by code_simp
  have d: "HasDefaultValue ?a" by simp
  have r1: "(case StringVarP listFramework [] () (LongName ?a) (ShortName ?a) ''xyz''
                   (rationalizeHelp ?a ''the host'') of
              Inl msg \<Rightarrow> Inl (FrameworkPanic msg)
            | Inr cmd' \<Rightarrow> processRequiredArg listFramework cmd' ?a) =
     Inr [\<lparr>flagName = ''host'', flagShorthand = [], flagDefValue = StringDefault ''xyz'',
           flagUsage = ''optional: the host'', flagRequired = False\<rparr>]" by code_simp
  have r2: "(case StringVarP listFramework [] () (LongName ?a) (ShortName ?a) (DefaultValue ?a)
                   (rationalizeHelp ?a ''the host'') of
              Inl msg \<Rightarrow> Inl (FrameworkPanic msg)
            | Inr cmd' \<Rightarrow> processRequiredArg listFramework cmd' ?a) =
     Inr [\<lparr>flagName = ''host'', flagShorthand = [], flagDefValue = StringDefault ''abc'',
           flagUsage = ''optional: the host'', flagRequired = False\<rparr>]" by code_simp
  from C9_string_override [OF h, of listFramework "[]" "()" "''xyz''" "[]"] d
  have 1: "AttachStringArg (\<lambda>s. s) listFramework [] exampleType ''Host'' () [''xyz''] =
           (case StringVarP listFramework [] () (LongName ?a) (ShortName ?a) ''xyz''
                   (rationalizeHelp ?a ''the host'') of
              Inl msg \<Rightarrow> Inl (FrameworkPanic msg)
            | Inr cmd' \<Rightarrow> processRequiredArg listFramework cmd' ?a)"
    and 2: "AttachStringArg (\<lambda>s. s) listFramework [] exampleType ''Host'' () [] =
              (case StringVarP listFramework [] () (LongName ?a) (ShortName ?a) (DefaultValue ?a)
                      (rationalizeHelp ?a ''the host'') of
                 Inl msg \<Rightarrow> Inl (FrameworkPanic msg)
               | Inr cmd' \<Rightarrow> processRequiredArg listFramework cmd' ?a)"
    by blast+
  from 1 r1 2 r2 3 r3 show ?thesis by (simp only:)
qed

end
